theory Spec2Isabelle
  imports Complex_Main
begin

section \<open>The data-center business engine\<close>

text \<open>
  A shallow embedding of \<^verbatim>\<open>maro/simulator/scenarios/data_center/business_engine.py\<close>:
  the three event handlers of \<^verbatim>\<open>DataCenterBusinessEngine\<close> and the data they touch.

  Python integers are \<^typ>\<open>int\<close>. The CPU utilisation of a machine is produced by
  Python's true division; it is modelled in exact rational arithmetic (\<^typ>\<open>rat\<close>), so
  the theorems below say which expression is assigned and do not speak about rounding.
  A handler that raises returns \<open>Inl (e, s)\<close>, where \<open>s\<close> is the engine as the
  exception leaves it (the mutations made before the raising line are kept).
\<close>

subsection \<open>Errors\<close>

datatype error = AttributeError | KeyError | IndexError | ZeroDivisionError | TypeError

subsection \<open>Resource entities\<close>

text \<open>
  The classes \<^verbatim>\<open>PhysicalMachine\<close> and \<^verbatim>\<open>VirtualMachine\<close> are imported by the
  engine; the records hold the attributes the engine reads and writes. The machine's
  \<^verbatim>\<open>id\<close> is \<open>machine_id\<close>; the attributes of a virtual machine that share a name with
  one of a physical machine carry the prefix \<open>vm_\<close>. The engine reads the identity of a
  virtual machine both as \<^verbatim>\<open>vm.id\<close> and as \<^verbatim>\<open>vm_req.vm_id\<close>: both are \<open>vm_id\<close>.
\<close>

record physical_machine =
  machine_id :: int
  cap_cpu :: int
  cap_mem :: int
  req_cpu :: int
  req_mem :: int
  util_cpu :: rat
  vm_set :: "int set"

record virtual_machine =
  vm_id :: int
  vm_req_cpu :: int
  vm_req_mem :: int
  lifetime :: int
  pm_id :: int
  start_tick :: int
  end_tick :: int
  vm_util_cpu :: rat

text \<open>
  Modelled from the spec: the constructor of \<^verbatim>\<open>PhysicalMachine\<close> and its methods
  \<^verbatim>\<open>add_vm\<close> and \<^verbatim>\<open>remove_vm\<close> (the class is imported from
  \<^verbatim>\<open>physical_machine.py\<close>). A machine starts with nothing reserved and an empty
  \<open>vm_set\<close>; \<open>vm_set\<close> is a set of virtual machine ids to which an id is added and
  from which it is removed.
\<close>

definition PhysicalMachine :: "int \<Rightarrow> int \<Rightarrow> int \<Rightarrow> physical_machine" where
  "PhysicalMachine i c m =
     \<lparr>machine_id = i, cap_cpu = c, cap_mem = m, req_cpu = 0, req_mem = 0,
      util_cpu = 0, vm_set = {}\<rparr>"

definition add_vm :: "physical_machine \<Rightarrow> int \<Rightarrow> physical_machine" where
  "add_vm pm i = pm\<lparr>vm_set := insert i (vm_set pm)\<rparr>"

definition remove_vm :: "physical_machine \<Rightarrow> int \<Rightarrow> physical_machine" where
  "remove_vm pm i = pm\<lparr>vm_set := vm_set pm - {i}\<rparr>"

subsection \<open>Metrics, payloads and events\<close>

record latency =
  latency_due_to_agent :: int
  latency_due_to_resource :: int

record vm_requirement_payload =
  vm_req :: virtual_machine
  buffer_time :: int

text \<open>One entry of \<^verbatim>\<open>valid_pm_list\<close>: the dictionary with keys id, cpu and mem.\<close>

record valid_pm_entry =
  entry_id :: int
  entry_cpu :: int
  entry_mem :: int

record decision_payload =
  valid_pm :: "valid_pm_entry list"
  vm_info :: virtual_machine
  decision_buffer_time :: int

text \<open>
  An \<^verbatim>\<open>Action\<close>: the handler reads \<^verbatim>\<open>assign\<close>, \<^verbatim>\<open>vm_req\<close>, \<^verbatim>\<open>pm_id\<close> (when
  assigning) and \<^verbatim>\<open>buffer_time\<close> (when postponing).
\<close>

record action =
  assign :: bool
  action_vm_req :: virtual_machine
  action_pm_id :: int
  action_buffer_time :: int

datatype event_kind = REQUIREMENTS | FINISHED | PENDING_DECISION | TAKE_ACTION

datatype event_payload =
    NoPayload
  | VmRequirementPayload vm_requirement_payload
  | DecisionPayload decision_payload
  | VmFinishedPayload int
  | ActionPayload action

text \<open>
  An event as the engine sees it: the tick, the event type and the payload. The event type
  is the keyword argument \<^verbatim>\<open>event_type\<close> of a generator call, which a call may leave
  out (\<open>None\<close>).
\<close>

record event =
  event_tick :: int
  event_type :: "event_kind option"
  payload :: event_payload

text \<open>
  Modelled from the spec: the event buffer's generators (\<^verbatim>\<open>maro.event_buffer\<close> is
  imported). The dispatcher's \<^verbatim>\<open>generate(kind, tick, payload)\<close> builds the event
  from the kind, the tick and the payload, and the kind is not optional: a call that
  passes no \<^verbatim>\<open>event_type\<close> is a Python call with a required argument missing, which
  raises TypeError before the generator runs. \<^verbatim>\<open>gen_decision_event\<close> takes no kind
  and builds a pending-decision event; \<^verbatim>\<open>insert_event\<close> schedules the event, recorded
  here as the sequence of events inserted so far.
\<close>

definition gen_cascade_event :: "int \<Rightarrow> event_kind option \<Rightarrow> event_payload \<Rightarrow> error + event" where
  "gen_cascade_event t k p =
     (case k of
        None \<Rightarrow> Inl TypeError
      | Some kind \<Rightarrow> Inr \<lparr>event_tick = t, event_type = Some kind, payload = p\<rparr>)"

definition gen_atom_event :: "int \<Rightarrow> event_kind option \<Rightarrow> event_payload \<Rightarrow> error + event" where
  "gen_atom_event t k p =
     (case k of
        None \<Rightarrow> Inl TypeError
      | Some kind \<Rightarrow> Inr \<lparr>event_tick = t, event_type = Some kind, payload = p\<rparr>)"

definition gen_decision_event :: "int \<Rightarrow> decision_payload \<Rightarrow> event" where
  "gen_decision_event t p =
     \<lparr>event_tick = t, event_type = Some PENDING_DECISION, payload = DecisionPayload p\<rparr>"

subsection \<open>The engine\<close>

record config =
  delay_duration :: int
  pm_amount :: int
  pm_cap_cpu :: int
  pm_cap_mem :: int

text \<open>
  The fields of the engine. \<open>vms\<close> is the dictionary \<^verbatim>\<open>self._vm\<close> of live virtual
  machines, \<open>event_buffer\<close> the events handed to \<^verbatim>\<open>insert_event\<close> so far, and
  \<open>printed\<close> the lines written by \<^verbatim>\<open>print\<close>.
\<close>

record engine =
  energy_consumption :: int
  successful_requirements :: int
  failed_requirements :: int
  total_latency :: latency
  machines :: "physical_machine list"
  vms :: "int \<rightharpoonup> virtual_machine"
  tick :: int
  pending_action_vm_id :: int
  event_buffer :: "event list"
  printed :: "string list"

definition init_machines :: "config \<Rightarrow> physical_machine list" where
  "init_machines cfg =
     map (\<lambda>i. PhysicalMachine i (pm_cap_cpu cfg) (pm_cap_mem cfg)) [0 .. pm_amount cfg - 1]"

definition init_engine :: "config \<Rightarrow> engine" where
  "init_engine cfg =
     \<lparr>energy_consumption = 0, successful_requirements = 0, failed_requirements = 0,
      total_latency = \<lparr>latency_due_to_agent = 0, latency_due_to_resource = 0\<rparr>,
      machines = init_machines cfg, vms = Map.empty, tick = 0,
      pending_action_vm_id = - 1, event_buffer = [], printed = []\<rparr>"

definition insert_event :: "engine \<Rightarrow> event \<Rightarrow> engine" where
  "insert_event s e = s\<lparr>event_buffer := event_buffer s @ [e]\<rparr>"

definition print :: "engine \<Rightarrow> string \<Rightarrow> engine" where
  "print s line = s\<lparr>printed := printed s @ [line]\<rparr>"

text \<open>
  Python's list indexing: an index from \<open>- n\<close> to \<open>- 1\<close> counts from the end, and an
  index outside \<open>- n .. n - 1\<close> raises IndexError (\<open>None\<close>).
\<close>

definition py_index :: "nat \<Rightarrow> int \<Rightarrow> nat option" where
  "py_index n i =
     (if 0 \<le> i \<and> i < int n then Some (nat i)
      else if - int n \<le> i \<and> i < 0 then Some (nat (int n + i))
      else None)"

subsection \<open>The requirement handler\<close>

definition valid_pm_list :: "physical_machine list \<Rightarrow> virtual_machine \<Rightarrow> valid_pm_entry list" where
  "valid_pm_list ms v =
     [\<lparr>entry_id = machine_id pm, entry_cpu = cap_cpu pm - req_cpu pm,
       entry_mem = cap_mem pm - req_mem pm\<rparr>.
      pm \<leftarrow> ms, cap_cpu pm - req_cpu pm \<ge> vm_req_cpu v]"

text \<open>
  \<^verbatim>\<open>_on_vm_required\<close>. The second component of a normal result lists the events the
  handler attaches to the delivered event with \<^verbatim>\<open>add_immediate_event\<close>. A payload that
  is not a requirement payload (\<^verbatim>\<open>step\<close> passes \<^verbatim>\<open>None\<close>) fails at the first
  attribute read. In the postponing branch the source decrements the budget of the payload
  object it received and sends that object on.
\<close>

definition on_vm_required ::
  "config \<Rightarrow> engine \<Rightarrow> event \<Rightarrow> (error \<times> engine) + (engine \<times> event list)" where
  "on_vm_required cfg s vm_requirement_event =
     (case payload vm_requirement_event of
        VmRequirementPayload p \<Rightarrow>
          (let v = vm_req p;
               remaining_buffer_time = buffer_time p;
               valid = valid_pm_list (machines s) v
           in if length valid > 0 then
                (let dp = \<lparr>valid_pm = valid, vm_info = v,
                           decision_buffer_time = remaining_buffer_time\<rparr>;
                     pending_decision_event =
                       gen_decision_event (event_tick vm_requirement_event) dp
                 in Inr (s\<lparr>pending_action_vm_id := vm_id v\<rparr>, [pending_decision_event]))
              else if remaining_buffer_time > 0 then
                (let postpone_payload = p\<lparr>buffer_time := buffer_time p - delay_duration cfg\<rparr>;
                     s1 = s\<lparr>total_latency := (total_latency s)
                            \<lparr>latency_due_to_resource :=
                               latency_due_to_resource (total_latency s) + delay_duration cfg\<rparr>\<rparr>
                 in case gen_cascade_event
                           (event_tick vm_requirement_event + delay_duration cfg)
                           (Some REQUIREMENTS) (VmRequirementPayload postpone_payload) of
                      Inl e \<Rightarrow> Inl (e, s1)
                    | Inr postpone_event \<Rightarrow> Inr (insert_event s1 postpone_event, []))
              else Inr (s\<lparr>failed_requirements := failed_requirements s + 1\<rparr>, []))
      | _ \<Rightarrow> Inl (AttributeError, s))"

subsection \<open>The finish handler\<close>

text \<open>
  \<^verbatim>\<open>_on_vm_finished\<close>. The lookup in the live table raises KeyError before anything
  is written; the machine is found by Python indexing with the stored \<open>pm_id\<close>; the
  division raises when the capacity is zero, after the two reservations were written.
\<close>

definition on_vm_finished :: "engine \<Rightarrow> event \<Rightarrow> (error \<times> engine) + engine" where
  "on_vm_finished s evt =
     (case payload evt of
        VmFinishedPayload i \<Rightarrow>
          (case vms s i of
             None \<Rightarrow> Inl (KeyError, s)
           | Some virtual_machine \<Rightarrow>
               (case py_index (length (machines s)) (pm_id virtual_machine) of
                  None \<Rightarrow> Inl (IndexError, s)
                | Some k \<Rightarrow>
                    (let pm0 = machines s ! k;
                         pm1 = pm0\<lparr>req_cpu := req_cpu pm0 - vm_req_cpu virtual_machine\<rparr>;
                         pm2 = pm1\<lparr>req_mem := req_mem pm1 - vm_req_mem virtual_machine\<rparr>
                     in if cap_cpu pm2 = 0 then
                          Inl (ZeroDivisionError, s\<lparr>machines := (machines s)[k := pm2]\<rparr>)
                        else
                          (let pm3 = pm2\<lparr>util_cpu :=
                                 (of_int (cap_cpu pm2) * util_cpu pm2
                                    - of_int (vm_req_cpu virtual_machine) * vm_util_cpu virtual_machine)
                                 / of_int (cap_cpu pm2)\<rparr>;
                               pm4 = remove_vm pm3 i
                           in Inr (s\<lparr>machines := (machines s)[k := pm4],
                                     vms := (vms s)(i := None),
                                     successful_requirements := successful_requirements s + 1\<rparr>)))))
      | _ \<Rightarrow> Inl (AttributeError, s))"

subsection \<open>The action handler\<close>

text \<open>
  \<^verbatim>\<open>_on_action_received\<close>. \<open>get_util\<close> stands for the method
  \<^verbatim>\<open>VirtualMachine.get_util\<close>, applied to the machine as it is when the call is made
  (after \<open>start_tick\<close> was written). The assign branch calls \<^verbatim>\<open>gen_atom_event\<close>
  with a tick and a payload only, and the postponing branch calls
  \<^verbatim>\<open>gen_cascade_event\<close> with a tick and a payload only: both calls pass no event
  type. The statements of the source that follow such a call are kept in the model, after
  the call.
\<close>

definition on_action_received ::
  "config \<Rightarrow> (virtual_machine \<Rightarrow> int \<Rightarrow> rat) \<Rightarrow> engine \<Rightarrow> event \<Rightarrow> (error \<times> engine) + engine" where
  "on_action_received cfg get_util s evt =
     (case payload evt of
        ActionPayload a \<Rightarrow>
          (let cur_tick = event_tick evt;
               v = action_vm_req a;
               s0 = (if vm_id v \<noteq> pending_action_vm_id s
                     then print s ''The VM id sent by agent is invalid.'' else s)
           in if assign a then
                (let p = action_pm_id a;
                     l = lifetime v;
                     v1 = v\<lparr>pm_id := p\<rparr>;
                     v2 = v1\<lparr>start_tick := cur_tick\<rparr>;
                     v3 = v2\<lparr>end_tick := cur_tick + l\<rparr>;
                     v4 = v3\<lparr>vm_util_cpu := get_util v3 cur_tick\<rparr>;
                     s1 = s0\<lparr>vms := (vms s0)(vm_id v4 \<mapsto> v4)\<rparr>
                 in case gen_atom_event (cur_tick + l) None (VmFinishedPayload (vm_id v4)) of
                      Inl e \<Rightarrow> Inl (e, s1)
                    | Inr finished_event \<Rightarrow>
                        (let s2 = insert_event s1 finished_event
                         in case py_index (length (machines s2)) p of
                              None \<Rightarrow> Inl (IndexError, s2)
                            | Some k \<Rightarrow>
                                (let pm0 = machines s2 ! k;
                                     pm1 = add_vm pm0 (vm_id v4);
                                     pm2 = pm1\<lparr>req_cpu := req_cpu pm1 + vm_req_cpu v4\<rparr>;
                                     pm3 = pm2\<lparr>req_mem := req_mem pm2 + vm_req_mem v4\<rparr>
                                 in if cap_cpu pm3 = 0 then
                                      Inl (ZeroDivisionError,
                                           s2\<lparr>machines := (machines s2)[k := pm3]\<rparr>)
                                    else
                                      Inr (s2\<lparr>machines := (machines s2)[k := pm3\<lparr>util_cpu :=
                                             (of_int (cap_cpu pm3) * util_cpu pm3
                                                + of_int (vm_req_cpu v4) * vm_util_cpu v4)
                                             / of_int (cap_cpu pm3)\<rparr>]\<rparr>))))
              else
                (let remaining_buffer_time = action_buffer_time a
                 in if remaining_buffer_time > 0 then
                      (let requirement_payload =
                             \<lparr>vm_req = v,
                              buffer_time = remaining_buffer_time - delay_duration cfg\<rparr>;
                           s1 = s0\<lparr>total_latency := (total_latency s0)
                                  \<lparr>latency_due_to_agent :=
                                     latency_due_to_agent (total_latency s0) + delay_duration cfg\<rparr>\<rparr>
                       in case gen_cascade_event (event_tick evt + delay_duration cfg) None
                                 (VmRequirementPayload requirement_payload) of
                            Inl e \<Rightarrow> Inl (e, s1)
                          | Inr postpone_event \<Rightarrow> Inr (insert_event s1 postpone_event))
                    else Inr (s0\<lparr>failed_requirements := failed_requirements s0 + 1\<rparr>)))
      | _ \<Rightarrow> Inl (AttributeError, s))"

subsection \<open>Delivering events\<close>

text \<open>
  The engine registers \<^verbatim>\<open>_on_vm_required\<close> for events of type REQUIREMENTS,
  \<^verbatim>\<open>_on_vm_finished\<close> for FINISHED and \<^verbatim>\<open>_on_action_received\<close> for TAKE_ACTION.
  A delivery names the handler an event is given to. A handler that raises leaves the
  engine as it is at the raising line, and the next delivery finds that engine:
  \<open>run\<close> delivers a sequence of events one after the other and returns the engine
  they leave.
\<close>

datatype delivery = ToVmRequired event | ToVmFinished event | ToActionReceived event

definition deliver ::
  "config \<Rightarrow> (virtual_machine \<Rightarrow> int \<Rightarrow> rat) \<Rightarrow> engine \<Rightarrow> delivery \<Rightarrow> (error \<times> engine) + engine" where
  "deliver cfg get_util s x =
     (case x of
        ToVmRequired e \<Rightarrow> map_sum id fst (on_vm_required cfg s e)
      | ToVmFinished e \<Rightarrow> on_vm_finished s e
      | ToActionReceived e \<Rightarrow> on_action_received cfg get_util s e)"

definition state_after :: "(error \<times> engine) + engine \<Rightarrow> engine" where
  "state_after r = (case r of Inl x \<Rightarrow> snd x | Inr s \<Rightarrow> s)"

fun run ::
  "config \<Rightarrow> (virtual_machine \<Rightarrow> int \<Rightarrow> rat) \<Rightarrow> engine \<Rightarrow> delivery list \<Rightarrow> engine" where
  "run cfg get_util s [] = s"
| "run cfg get_util s (x # xs) = run cfg get_util (state_after (deliver cfg get_util s x)) xs"

text \<open>
  The events a handler call has inserted, and the chain of one postponed requirement: the
  requirement is delivered, and as long as the handler inserts a new event of type
  REQUIREMENTS that event is delivered next, with no other event in between. The counter
  is the number of re-emissions. The chain need not end (a delay of zero re-emits the same
  budget forever), so it is a partial function.
\<close>

definition emitted :: "engine \<Rightarrow> engine \<Rightarrow> event list" where
  "emitted s s' = drop (length (event_buffer s)) (event_buffer s')"

partial_function (option) postpone_chain ::
  "config \<Rightarrow> engine \<Rightarrow> event \<Rightarrow> nat \<Rightarrow> (nat \<times> engine) option" where
  "postpone_chain cfg s ev n =
     (case on_vm_required cfg s ev of
        Inl r \<Rightarrow> Some (n, snd r)
      | Inr r \<Rightarrow>
          (case filter (\<lambda>e. event_type e = Some REQUIREMENTS) (emitted s (fst r)) of
             [] \<Rightarrow> Some (n, fst r)
           | e # _ \<Rightarrow> postpone_chain cfg (fst r) e (n + 1)))"

subsection \<open>Properties of an engine state\<close>

text \<open>
  No machine has more reserved than its capacity; the reserved CPU of all machines is the
  requested CPU of all live virtual machines; the requests of the live virtual machines
  are not negative; an action carries requests that are not negative.
\<close>

definition capacity_ok :: "engine \<Rightarrow> bool" where
  "capacity_ok s =
     list_all (\<lambda>pm. req_cpu pm \<le> cap_cpu pm \<and> req_mem pm \<le> cap_mem pm) (machines s)"

definition cpu_conserved :: "engine \<Rightarrow> bool" where
  "cpu_conserved s =
     (sum_list (map req_cpu (machines s)) = (\<Sum>i \<in> dom (vms s). vm_req_cpu (the (vms s i))))"

definition live_requests_nonneg :: "engine \<Rightarrow> bool" where
  "live_requests_nonneg s =
     (\<forall>i v. vms s i = Some v \<longrightarrow> 0 \<le> vm_req_cpu v \<and> 0 \<le> vm_req_mem v)"

definition nonneg_requests :: "delivery \<Rightarrow> bool" where
  "nonneg_requests x =
     (case x of
        ToActionReceived e \<Rightarrow>
          (case payload e of
             ActionPayload a \<Rightarrow>
               0 \<le> vm_req_cpu (action_vm_req a) \<and> 0 \<le> vm_req_mem (action_vm_req a)
           | _ \<Rightarrow> True)
      | _ \<Rightarrow> True)"

subsection \<open>Example inputs\<close>

definition example_config :: config where
  "example_config = \<lparr>delay_duration = 5, pm_amount = 2, pm_cap_cpu = 100, pm_cap_mem = 100\<rparr>"

definition example_get_util :: "virtual_machine \<Rightarrow> int \<Rightarrow> rat" where
  "example_get_util v t = 20 + of_int (t - start_tick v)"

definition new_vm :: "int \<Rightarrow> int \<Rightarrow> int \<Rightarrow> int \<Rightarrow> virtual_machine" where
  "new_vm i c m l =
     \<lparr>vm_id = i, vm_req_cpu = c, vm_req_mem = m, lifetime = l, pm_id = - 1,
      start_tick = - 1, end_tick = - 1, vm_util_cpu = - 1\<rparr>"

definition requirement_event :: "int \<Rightarrow> virtual_machine \<Rightarrow> int \<Rightarrow> event" where
  "requirement_event t v b =
     \<lparr>event_tick = t, event_type = Some REQUIREMENTS,
      payload = VmRequirementPayload \<lparr>vm_req = v, buffer_time = b\<rparr>\<rparr>"

definition finished_event :: "int \<Rightarrow> int \<Rightarrow> event" where
  "finished_event t i =
     \<lparr>event_tick = t, event_type = Some FINISHED, payload = VmFinishedPayload i\<rparr>"

definition assign_event :: "int \<Rightarrow> virtual_machine \<Rightarrow> int \<Rightarrow> event" where
  "assign_event t v p =
     \<lparr>event_tick = t, event_type = Some TAKE_ACTION,
      payload = ActionPayload \<lparr>assign = True, action_vm_req = v, action_pm_id = p,
                               action_buffer_time = 0\<rparr>\<rparr>"

definition postpone_event :: "int \<Rightarrow> virtual_machine \<Rightarrow> int \<Rightarrow> event" where
  "postpone_event t v b =
     \<lparr>event_tick = t, event_type = Some TAKE_ACTION,
      payload = ActionPayload \<lparr>assign = False, action_vm_req = v, action_pm_id = - 1,
                               action_buffer_time = b\<rparr>\<rparr>"

text \<open>
  The engine after the requirement for the virtual machine 1 (50 CPU, 30 memory, lifetime
  10) was delivered at tick 0: both machines are candidates and the decision for id 1 is
  pending.
\<close>

definition pending_engine :: engine where
  "pending_engine =
     run example_config example_get_util (init_engine example_config)
       [ToVmRequired (requirement_event 0 (new_vm 1 50 30 10) 5)]"

text \<open>
  An engine in which machine 0 hosts the virtual machine 1, as the statements of the
  assign branch would leave it, and the engine after that virtual machine has finished.
\<close>

definition hosting_engine :: engine where
  "hosting_engine =
     (init_engine example_config)
       \<lparr>machines := [\<lparr>machine_id = 0, cap_cpu = 100, cap_mem = 100, req_cpu = 50,
                       req_mem = 30, util_cpu = 10, vm_set = {1}\<rparr>,
                     PhysicalMachine 1 100 100],
        vms := [1 \<mapsto> \<lparr>vm_id = 1, vm_req_cpu = 50, vm_req_mem = 30, lifetime = 10, pm_id = 0,
                       start_tick = 0, end_tick = 10, vm_util_cpu = 20\<rparr>]\<rparr>"

definition released_engine :: engine where
  "released_engine = (init_engine example_config)\<lparr>successful_requirements := 1\<rparr>"

section \<open>Evaluation of the examples\<close>

lemmas example_defs =
  example_config_def example_get_util_def new_vm_def requirement_event_def
  finished_event_def assign_event_def postpone_event_def init_engine_def init_machines_def
  PhysicalMachine_def upto.simps

lemmas handler_defs =
  on_vm_required_def on_vm_finished_def on_action_received_def deliver_def state_after_def
  Let_def py_index_def insert_event_def print_def add_vm_def remove_vm_def valid_pm_list_def
  gen_atom_event_def gen_cascade_event_def gen_decision_event_def

section \<open>The requirement handler\<close>

lemma valid_pm_list_map_filter:
  "valid_pm_list ms v =
     map (\<lambda>pm. \<lparr>entry_id = machine_id pm, entry_cpu = cap_cpu pm - req_cpu pm,
                 entry_mem = cap_mem pm - req_mem pm\<rparr>)
       (filter (\<lambda>pm. vm_req_cpu v \<le> cap_cpu pm - req_cpu pm) ms)"
  unfolding valid_pm_list_def by (induction ms) simp_all

lemma valid_pm_list_ids_mem_free:
  "map entry_id (valid_pm_list (map (\<lambda>pm. pm\<lparr>cap_mem := cm pm, req_mem := rm pm\<rparr>) ms)
       (v\<lparr>vm_req_mem := m\<rparr>)) = map entry_id (valid_pm_list ms v)"
  unfolding valid_pm_list_map_filter by (induction ms) simp_all

text \<open>
  Claim C2. For a requirement event that carries a virtual machine descriptor, the
  candidate list is made of the machines with \<open>cap_cpu - req_cpu \<ge> req_cpu(vm)\<close>, in
  machine order, each reported with its free CPU and free memory; when the list is not
  empty it is the list sent in the pending decision. Memory is no condition: replacing
  every memory figure of the machines and the memory request of the virtual machine by
  anything leaves the candidate ids as they are.
\<close>

theorem on_vm_required_candidates:
  assumes "payload ev = VmRequirementPayload p"
  shows "(let cands = valid_pm_list (machines s) (vm_req p) in
      cands = map (\<lambda>pm. \<lparr>entry_id = machine_id pm, entry_cpu = cap_cpu pm - req_cpu pm,
                 entry_mem = cap_mem pm - req_mem pm\<rparr>)
               (filter (\<lambda>pm. vm_req_cpu (vm_req p) \<le> cap_cpu pm - req_cpu pm) (machines s))
    \<and> (cands \<noteq> [] \<longrightarrow>
         on_vm_required cfg s ev =
           Inr (s\<lparr>pending_action_vm_id := vm_id (vm_req p)\<rparr>,
                [\<lparr>event_tick = event_tick ev, event_type = Some PENDING_DECISION,
                  payload = DecisionPayload \<lparr>valid_pm = cands, vm_info = vm_req p,
                     decision_buffer_time = buffer_time p\<rparr>\<rparr>]))
    \<and> map entry_id
         (valid_pm_list (map (\<lambda>pm. pm\<lparr>cap_mem := cm pm, req_mem := rm pm\<rparr>) (machines s))
            ((vm_req p)\<lparr>vm_req_mem := m\<rparr>)) = map entry_id cands)"
  using assms
  by (simp add: Let_def valid_pm_list_ids_mem_free on_vm_required_def gen_decision_event_def
        valid_pm_list_map_filter [symmetric])

text \<open>
  The witness: a virtual machine that asks for 10 CPU and 200 memory meets two empty
  machines of memory 100; both are candidates.
\<close>

theorem on_vm_required_candidates_witness:
  "payload (requirement_event 0 (new_vm 3 10 200 4) 5)
     = VmRequirementPayload \<lparr>vm_req = new_vm 3 10 200 4, buffer_time = 5\<rparr>
   \<and> valid_pm_list (machines (init_engine example_config)) (new_vm 3 10 200 4)
     = [\<lparr>entry_id = 0, entry_cpu = 100, entry_mem = 100\<rparr>,
        \<lparr>entry_id = 1, entry_cpu = 100, entry_mem = 100\<rparr>]
   \<and> map_sum fst (map payload \<circ> snd)
       (on_vm_required example_config (init_engine example_config)
          (requirement_event 0 (new_vm 3 10 200 4) 5))
     = Inr [DecisionPayload
              \<lparr>valid_pm = [\<lparr>entry_id = 0, entry_cpu = 100, entry_mem = 100\<rparr>,
                            \<lparr>entry_id = 1, entry_cpu = 100, entry_mem = 100\<rparr>],
               vm_info = new_vm 3 10 200 4, decision_buffer_time = 5\<rparr>]"
  using on_vm_required_candidates
    [of "requirement_event 0 (new_vm 3 10 200 4) 5"
        "\<lparr>vm_req = new_vm 3 10 200 4, buffer_time = 5\<rparr>"
        "init_engine example_config" example_config "\<lambda>pm. 0" "\<lambda>pm. 0" 0]
  by (simp add: example_defs Let_def)

text \<open>
  Claim C3. For a requirement event with an empty candidate list: with a remaining buffer
  time above zero the handler adds \<open>delay_duration\<close> to \<open>latency_due_to_resource\<close>
  and inserts one requirement event at \<open>tick + delay_duration\<close> with the same virtual
  machine and the buffer time less \<open>delay_duration\<close>; otherwise it adds one to
  \<open>failed_requirements\<close> and emits no event. Nothing else changes.
\<close>

theorem on_vm_required_no_candidate:
  assumes "payload ev = VmRequirementPayload p"
      and "valid_pm_list (machines s) (vm_req p) = []"
  shows "on_vm_required cfg s ev =
     (if 0 < buffer_time p then
        Inr (s\<lparr>total_latency := (total_latency s)
                 \<lparr>latency_due_to_resource :=
                    latency_due_to_resource (total_latency s) + delay_duration cfg\<rparr>,
               event_buffer := event_buffer s @
                 [\<lparr>event_tick = event_tick ev + delay_duration cfg,
                   event_type = Some REQUIREMENTS,
                   payload = VmRequirementPayload
                     \<lparr>vm_req = vm_req p, buffer_time = buffer_time p - delay_duration cfg\<rparr>\<rparr>]\<rparr>, [])
      else Inr (s\<lparr>failed_requirements := failed_requirements s + 1\<rparr>, []))"
  using assms
  by (simp add: on_vm_required_def Let_def insert_event_def gen_cascade_event_def)

theorem on_vm_required_no_candidate_witness:
  "payload (requirement_event 0 (new_vm 2 150 10 4) 5)
     = VmRequirementPayload \<lparr>vm_req = new_vm 2 150 10 4, buffer_time = 5\<rparr>
   \<and> valid_pm_list (machines (init_engine example_config)) (new_vm 2 150 10 4) = []
   \<and> on_vm_required example_config (init_engine example_config)
       (requirement_event 0 (new_vm 2 150 10 4) 5)
     = Inr ((init_engine example_config)
              \<lparr>total_latency := \<lparr>latency_due_to_agent = 0, latency_due_to_resource = 5\<rparr>,
               event_buffer := [requirement_event 5 (new_vm 2 150 10 4) 0]\<rparr>, [])"
  using on_vm_required_no_candidate
    [of "requirement_event 0 (new_vm 2 150 10 4) 5"
        "\<lparr>vm_req = new_vm 2 150 10 4, buffer_time = 5\<rparr>"
        "init_engine example_config" example_config]
  by (simp add: example_defs valid_pm_list_def)

section \<open>The finish handler\<close>

lemma py_index_less: "py_index n i = Some k \<Longrightarrow> k < n"
  by (auto simp: py_index_def split: if_splits)

text \<open>
  Claim C5. For a finish event that names a virtual machine of the live table, hosted on
  the machine its \<open>pm_id\<close> indexes (of capacity other than zero, which the division
  needs), the handler subtracts the requests of the virtual machine from the reserved
  totals of that machine, sets its \<open>util_cpu\<close> to
  \<open>(cap_cpu * old_util - vm_req_cpu * vm_util) / cap_cpu\<close>, removes the id from its
  \<open>vm_set\<close>, removes the virtual machine from the live table and adds one to
  \<open>successful_requirements\<close>. Nothing else changes.
\<close>

theorem on_vm_finished_releases:
  assumes "payload evt = VmFinishedPayload i"
      and "vms s i = Some v"
      and "py_index (length (machines s)) (pm_id v) = Some k"
      and "i \<in> vm_set (machines s ! k)"
      and "cap_cpu (machines s ! k) \<noteq> 0"
  shows "on_vm_finished s evt =
     Inr (s\<lparr>machines := (machines s)[k := (machines s ! k)
               \<lparr>req_cpu := req_cpu (machines s ! k) - vm_req_cpu v,
                req_mem := req_mem (machines s ! k) - vm_req_mem v,
                util_cpu := (of_int (cap_cpu (machines s ! k)) * util_cpu (machines s ! k)
                               - of_int (vm_req_cpu v) * vm_util_cpu v)
                            / of_int (cap_cpu (machines s ! k)),
                vm_set := vm_set (machines s ! k) - {i}\<rparr>],
            vms := (vms s)(i := None),
            successful_requirements := successful_requirements s + 1\<rparr>)"
  using assms by (simp add: on_vm_finished_def Let_def remove_vm_def)



theorem on_vm_finished_releases_witness:
  "payload (finished_event 10 1) = VmFinishedPayload 1
   \<and> vms hosting_engine 1
       = Some \<lparr>vm_id = 1, vm_req_cpu = 50, vm_req_mem = 30, lifetime = 10, pm_id = 0,
               start_tick = 0, end_tick = 10, vm_util_cpu = 20\<rparr>
   \<and> py_index (length (machines hosting_engine)) 0 = Some 0
   \<and> 1 \<in> vm_set (machines hosting_engine ! 0)
   \<and> cap_cpu (machines hosting_engine ! 0) \<noteq> 0
   \<and> on_vm_finished hosting_engine (finished_event 10 1) = Inr released_engine"
  using on_vm_finished_releases
    [of "finished_event 10 1" 1 hosting_engine
        "\<lparr>vm_id = 1, vm_req_cpu = 50, vm_req_mem = 30, lifetime = 10, pm_id = 0,
          start_tick = 0, end_tick = 10, vm_util_cpu = 20\<rparr>" 0]
  by (simp add: hosting_engine_def released_engine_def example_defs py_index_def)


section \<open>The action handler\<close>

text \<open>
  The whole result of the handler for an action. The mismatch of the id only prints a
  line. An assign writes the virtual machine and puts it in the live table, and raises at
  the generator call; a postponement with buffer time left adds the delay to
  \<open>latency_due_to_agent\<close> and raises at the generator call; a postponement with no
  buffer time left adds one to \<open>failed_requirements\<close> and returns.
\<close>

lemma on_action_received_result:
  assumes "payload evt = ActionPayload a"
  shows "on_action_received cfg gu s evt =
     (let v = action_vm_req a;
          t = event_tick evt;
          v3 = v\<lparr>pm_id := action_pm_id a, start_tick := t, end_tick := t + lifetime v\<rparr>;
          s0 = s\<lparr>printed := (if vm_id v \<noteq> pending_action_vm_id s
                             then printed s @ [''The VM id sent by agent is invalid.'']
                             else printed s)\<rparr>
      in if assign a then
           Inl (TypeError, s0\<lparr>vms := (vms s)(vm_id v \<mapsto> v3\<lparr>vm_util_cpu := gu v3 t\<rparr>)\<rparr>)
         else if 0 < action_buffer_time a then
           Inl (TypeError, s0\<lparr>total_latency := (total_latency s)
                 \<lparr>latency_due_to_agent :=
                    latency_due_to_agent (total_latency s) + delay_duration cfg\<rparr>\<rparr>)
         else Inr (s0\<lparr>failed_requirements := failed_requirements s + 1\<rparr>))"
  using assms
  by (simp add: on_action_received_def Let_def print_def gen_atom_event_def
        gen_cascade_event_def)

lemma pending_engine_eq:
  "pending_engine = (init_engine example_config)\<lparr>pending_action_vm_id := 1\<rparr>"
  by (simp add: pending_engine_def example_defs handler_defs)

text \<open>
  Claim C1. An assign action makes the handler schedule a finish event at \<open>end_tick\<close>
  and update the target machine. The handler calls the generator without an event type:
  with the decision for the virtual machine 1 pending, the assign action for machine 0 at
  tick 0 raises TypeError after the virtual machine was written and put in the live
  table; no event is inserted and no machine is written.
\<close>

theorem assign_schedules_no_finish_event:
  "on_action_received example_config example_get_util pending_engine
     (assign_event 0 (new_vm 1 50 30 10) 0)
     = Inl (TypeError,
         pending_engine\<lparr>vms := [1 \<mapsto> \<lparr>vm_id = 1, vm_req_cpu = 50, vm_req_mem = 30,
                                       lifetime = 10, pm_id = 0, start_tick = 0, end_tick = 10,
                                       vm_util_cpu = 20\<rparr>]\<rparr>)
   \<and> event_buffer pending_engine = []
   \<and> machines pending_engine = [PhysicalMachine 0 100 100, PhysicalMachine 1 100 100]
   \<and> pending_action_vm_id pending_engine = 1"
  by (simp add: pending_engine_eq example_defs handler_defs)

text \<open>
  Claim C4. A postpone action with buffer time left makes the handler re-emit a
  requirement event of the REQUIREMENTS kind. The handler calls the generator without an
  event type: with the decision for the virtual machine 1 pending, the postpone action
  with buffer time 3 at tick 0 raises TypeError after the delay was added to
  \<open>latency_due_to_agent\<close>, and no event is inserted. The requirement handler,
  postponing the same kind of request by itself, passes the type and inserts the event.
\<close>

theorem postpone_reemits_no_requirement:
  "on_action_received example_config example_get_util pending_engine
     (postpone_event 0 (new_vm 1 50 30 10) 3)
     = Inl (TypeError,
         pending_engine\<lparr>total_latency :=
           \<lparr>latency_due_to_agent = 5, latency_due_to_resource = 0\<rparr>\<rparr>)
   \<and> event_buffer pending_engine = []
   \<and> map_sum fst (map event_type \<circ> event_buffer \<circ> fst)
       (on_vm_required example_config (init_engine example_config)
          (requirement_event 0 (new_vm 2 150 10 4) 3))
     = Inr [Some REQUIREMENTS]"
  by (simp add: pending_engine_eq example_defs handler_defs)

text \<open>
  Claim C8. An action whose virtual machine id is not the pending one is reported and
  then applied. The report is as claimed, a printed line and nothing raised by it; the
  action is not applied: with the decision for id 1 pending, an assign action for the
  virtual machine 7 and machine 0 prints the line, puts the virtual machine in the live
  table and raises TypeError at the generator call, with no machine written and no event
  inserted; a postpone action for it with buffer time 3 prints the line, adds the delay to
  the latency and raises TypeError, with no event inserted.
\<close>

theorem mismatched_action_not_applied:
  "on_action_received example_config example_get_util pending_engine
     (assign_event 0 (new_vm 7 50 30 10) 0)
     = Inl (TypeError,
         pending_engine\<lparr>printed := [''The VM id sent by agent is invalid.''],
                         vms := [7 \<mapsto> \<lparr>vm_id = 7, vm_req_cpu = 50, vm_req_mem = 30,
                                       lifetime = 10, pm_id = 0, start_tick = 0, end_tick = 10,
                                       vm_util_cpu = 20\<rparr>]\<rparr>)
   \<and> on_action_received example_config example_get_util pending_engine
       (postpone_event 0 (new_vm 7 50 30 10) 3)
     = Inl (TypeError,
         pending_engine\<lparr>printed := [''The VM id sent by agent is invalid.''],
                         total_latency :=
                           \<lparr>latency_due_to_agent = 5, latency_due_to_resource = 0\<rparr>\<rparr>)
   \<and> event_buffer pending_engine = []
   \<and> machines pending_engine = [PhysicalMachine 0 100 100, PhysicalMachine 1 100 100]
   \<and> pending_action_vm_id pending_engine = 1"
  by (simp add: pending_engine_eq example_defs handler_defs)

section \<open>The postponement chain\<close>

lemma ceil_step:
  fixes B d :: int
  assumes "0 < d" "0 < B"
  shows "nat \<lceil>rat_of_int B / rat_of_int d\<rceil> = Suc (nat \<lceil>rat_of_int (B - d) / rat_of_int d\<rceil>)"
proof -
  define x where "x = rat_of_int B / rat_of_int d"
  have "rat_of_int (B - d) / rat_of_int d = x - 1"
    using assms(1) by (simp add: diff_divide_distrib x_def)
  then have c: "\<lceil>rat_of_int (B - d) / rat_of_int d\<rceil> = \<lceil>x\<rceil> - 1"
    by (simp only: ceiling_diff_one)
  have "0 < x"
    using assms by (simp add: x_def)
  then have "0 < \<lceil>x\<rceil>"
    by (simp only: zero_less_ceiling)
  then have "nat \<lceil>x\<rceil> = Suc (nat (\<lceil>x\<rceil> - 1))"
    by linarith
  then show ?thesis
    by (simp only: c x_def)
qed

lemma ceil_nonpos:
  fixes B d :: int
  assumes "0 < d" "B \<le> 0"
  shows "nat \<lceil>rat_of_int B / rat_of_int d\<rceil> = 0"
  using assms by (simp add: divide_nonpos_pos)

lemma ceil_bounds:
  fixes B d :: int
  assumes "0 < d"
  shows "B \<le> d * \<lceil>rat_of_int B / rat_of_int d\<rceil> \<and> d * \<lceil>rat_of_int B / rat_of_int d\<rceil> < B + d"
proof -
  define c where "c = \<lceil>rat_of_int B / rat_of_int d\<rceil>"
  have d: "0 < rat_of_int d" using assms by simp
  have "rat_of_int B / rat_of_int d \<le> rat_of_int c"
    unfolding c_def by (rule le_of_int_ceiling)
  then have "rat_of_int B \<le> rat_of_int c * rat_of_int d"
    unfolding pos_divide_le_eq [OF d] .
  then have "rat_of_int B \<le> rat_of_int (d * c)"
    by (simp add: mult.commute)
  then have lo: "B \<le> d * c"
    by (simp only: of_int_le_iff)
  have "rat_of_int c - 1 < rat_of_int B / rat_of_int d"
    unfolding c_def using ceiling_correct [of "rat_of_int B / rat_of_int d"] by simp
  then have "(rat_of_int c - 1) * rat_of_int d < rat_of_int B"
    unfolding pos_less_divide_eq [OF d] .
  then have "rat_of_int (d * c) < rat_of_int (B + d)"
    by (simp add: algebra_simps)
  then have hi: "d * c < B + d"
    by (simp only: of_int_less_iff)
  from lo hi show ?thesis unfolding c_def ..
qed

lemma ceil_dvd:
  fixes B d :: int
  assumes "0 < d"
  shows "(d * \<lceil>rat_of_int B / rat_of_int d\<rceil> = B) = (d dvd B)"
proof
  assume "d * \<lceil>rat_of_int B / rat_of_int d\<rceil> = B"
  then show "d dvd B" by (metis dvd_triv_left)
next
  assume "d dvd B"
  then obtain q where q: "B = d * q" ..
  have "rat_of_int B / rat_of_int d = rat_of_int q"
    using assms by (simp add: q)
  then show "d * \<lceil>rat_of_int B / rat_of_int d\<rceil> = B"
    by (simp add: q)
qed

lemma postpone_chain_unfold:
  assumes "0 < delay_duration cfg"
      and "valid_pm_list (machines s) v = []"
      and "payload ev = VmRequirementPayload \<lparr>vm_req = v, buffer_time = B\<rparr>"
  shows "postpone_chain cfg s ev n =
     (if 0 < B then
        postpone_chain cfg
          (s\<lparr>total_latency := (total_latency s)
                 \<lparr>latency_due_to_resource :=
                    latency_due_to_resource (total_latency s) + delay_duration cfg\<rparr>,
               event_buffer := event_buffer s @
                 [\<lparr>event_tick = event_tick ev + delay_duration cfg,
                   event_type = Some REQUIREMENTS,
                   payload = VmRequirementPayload
                     \<lparr>vm_req = v, buffer_time = B - delay_duration cfg\<rparr>\<rparr>]\<rparr>)
          \<lparr>event_tick = event_tick ev + delay_duration cfg,
                   event_type = Some REQUIREMENTS,
                   payload = VmRequirementPayload
                     \<lparr>vm_req = v, buffer_time = B - delay_duration cfg\<rparr>\<rparr>
          (Suc n)
      else Some (n, s\<lparr>failed_requirements := failed_requirements s + 1\<rparr>))"
  using assms
  by (subst postpone_chain.simps)
     (simp add: on_vm_required_def Let_def insert_event_def gen_cascade_event_def emitted_def)

lemma map_upt_shift:
  "map f [Suc 0..<Suc (Suc k)] = f (Suc 0) # map (\<lambda>j. f (Suc j)) [Suc 0..<Suc k]"
proof -
  have "[Suc 0..<Suc (Suc k)] = Suc 0 # map Suc [Suc 0..<Suc k]"
    by (simp add: upt_conv_Cons map_Suc_upt del: upt_Suc)
  then show ?thesis by (simp only: list.map map_map comp_def)
qed

lemma nat_ceiling_zero:
  fixes B d :: int
  assumes "0 < d" "nat \<lceil>rat_of_int B / rat_of_int d\<rceil> = 0"
  shows "B \<le> 0"
proof -
  have "\<lceil>rat_of_int B / rat_of_int d\<rceil> \<le> 0" using assms(2) by simp
  then have "rat_of_int B / rat_of_int d \<le> 0" by (simp only: ceiling_le_zero of_int_0)
  then show ?thesis using assms(1) by (simp add: divide_le_0_iff)
qed

lemma nat_ceiling_Suc:
  fixes B d :: int
  assumes "0 < d" "nat \<lceil>rat_of_int B / rat_of_int d\<rceil> = Suc k"
  shows "0 < B \<and> nat \<lceil>rat_of_int (B - d) / rat_of_int d\<rceil> = k"
proof -
  have "0 < B"
  proof (rule ccontr)
    assume "\<not> 0 < B"
    then have "nat \<lceil>rat_of_int B / rat_of_int d\<rceil> = 0"
      using assms(1) by (intro ceil_nonpos) simp_all
    with assms(2) show False by simp
  qed
  with ceil_step [OF assms(1) this] assms(2) show ?thesis by simp
qed

lemma postpone_chain_result:
  assumes "0 < delay_duration cfg"
      and "valid_pm_list (machines s) v = []"
      and "payload ev = VmRequirementPayload \<lparr>vm_req = v, buffer_time = B\<rparr>"
      and "nat \<lceil>rat_of_int B / rat_of_int (delay_duration cfg)\<rceil> = k"
  shows "postpone_chain cfg s ev n =
     Some (n + k,
       s\<lparr>failed_requirements := failed_requirements s + 1,
         total_latency := (total_latency s)
           \<lparr>latency_due_to_resource :=
              latency_due_to_resource (total_latency s) + delay_duration cfg * int k\<rparr>,
         event_buffer := event_buffer s @
           map (\<lambda>j. \<lparr>event_tick = event_tick ev + delay_duration cfg * int j,
                     event_type = Some REQUIREMENTS,
                     payload = VmRequirementPayload
                       \<lparr>vm_req = v, buffer_time = B - delay_duration cfg * int j\<rparr>\<rparr>)
             [1..<Suc k]\<rparr>)"
  using assms(2-4)
proof (induction k arbitrary: s ev n B)
  case 0
  from nat_ceiling_zero [OF assms(1) "0.prems"(3)] have "\<not> 0 < B" by simp
  then show ?case
    by (simp add: postpone_chain_unfold [OF assms(1) "0.prems"(1,2)])
next
  case (Suc k)
  from nat_ceiling_Suc [OF assms(1) Suc.prems(3)]
  have pos: "0 < B"
    and k: "nat \<lceil>rat_of_int (B - delay_duration cfg) / rat_of_int (delay_duration cfg)\<rceil> = k"
    by simp_all
  show ?case
    unfolding postpone_chain_unfold [OF assms(1) Suc.prems(1,2)]
    using pos
    by (simp add: Suc.IH [OF _ _ k] Suc.prems(1) map_upt_shift algebra_simps del: upt_Suc)
qed

text \<open>
  Claim C10. A requirement that finds no candidate, with a delay \<open>d > 0\<close> and a buffer
  time \<open>B \<ge> 0\<close>: the chain of its deliveries ends; the requirement is re-emitted
  \<open>\<lceil>B / d\<rceil>\<close> times, the j-th time at \<open>tick + d * j\<close> with the budget \<open>B - d * j\<close>
  (the last budget is at most zero and above \<open>- d\<close>); then \<open>failed_requirements\<close> grows
  by one; \<open>latency_due_to_resource\<close> grows by \<open>d * \<lceil>B / d\<rceil>\<close>, which is at least
  \<open>B\<close> and equal to \<open>B\<close> only when \<open>d\<close> divides \<open>B\<close>.
\<close>

theorem postpone_chain_terminates:
  assumes "0 < delay_duration cfg"
      and "payload ev = VmRequirementPayload p"
      and "0 \<le> buffer_time p"
      and "valid_pm_list (machines s) (vm_req p) = []"
  shows "\<exists>s'. postpone_chain cfg s ev 0
             = Some (nat \<lceil>rat_of_int (buffer_time p) / rat_of_int (delay_duration cfg)\<rceil>, s')
     \<and> emitted s s' =
         map (\<lambda>j. \<lparr>event_tick = event_tick ev + delay_duration cfg * int j,
                   event_type = Some REQUIREMENTS,
                   payload = VmRequirementPayload
                     \<lparr>vm_req = vm_req p,
                      buffer_time = buffer_time p - delay_duration cfg * int j\<rparr>\<rparr>)
           [1..<Suc (nat \<lceil>rat_of_int (buffer_time p) / rat_of_int (delay_duration cfg)\<rceil>)]
     \<and> failed_requirements s' = failed_requirements s + 1
     \<and> latency_due_to_resource (total_latency s')
         = latency_due_to_resource (total_latency s)
           + delay_duration cfg * \<lceil>rat_of_int (buffer_time p) / rat_of_int (delay_duration cfg)\<rceil>
     \<and> buffer_time p
         \<le> delay_duration cfg * \<lceil>rat_of_int (buffer_time p) / rat_of_int (delay_duration cfg)\<rceil>
     \<and> delay_duration cfg * \<lceil>rat_of_int (buffer_time p) / rat_of_int (delay_duration cfg)\<rceil>
         < buffer_time p + delay_duration cfg
     \<and> (delay_duration cfg * \<lceil>rat_of_int (buffer_time p) / rat_of_int (delay_duration cfg)\<rceil>
          = buffer_time p) = (delay_duration cfg dvd buffer_time p)"
proof -
  let ?d = "delay_duration cfg" and ?B = "buffer_time p"
  let ?c = "\<lceil>rat_of_int ?B / rat_of_int ?d\<rceil>"
  define k where "k = nat ?c"
  define s' where "s' =
       s\<lparr>failed_requirements := failed_requirements s + 1,
         total_latency := (total_latency s)
           \<lparr>latency_due_to_resource :=
              latency_due_to_resource (total_latency s) + ?d * int k\<rparr>,
         event_buffer := event_buffer s @
           map (\<lambda>j. \<lparr>event_tick = event_tick ev + ?d * int j,
                     event_type = Some REQUIREMENTS,
                     payload = VmRequirementPayload
                       \<lparr>vm_req = vm_req p, buffer_time = ?B - ?d * int j\<rparr>\<rparr>)
             [1..<Suc k]\<rparr>"
  have p: "payload ev = VmRequirementPayload \<lparr>vm_req = vm_req p, buffer_time = ?B\<rparr>"
    using assms(2) by simp
  have "0 \<le> rat_of_int ?B / rat_of_int ?d"
    using assms(1,3) by simp
  then have "- 1 < rat_of_int ?B / rat_of_int ?d"
    by linarith
  then have "0 \<le> ?c"
    by (simp only: zero_le_ceiling)
  then have c: "?c = int k"
    unfolding k_def by simp
  have r: "postpone_chain cfg s ev 0 = Some (k, s')"
    using postpone_chain_result [OF assms(1) assms(4) p k_def [symmetric], of 0]
    unfolding s'_def by simp
  have e: "emitted s s' =
         map (\<lambda>j. \<lparr>event_tick = event_tick ev + ?d * int j,
                   event_type = Some REQUIREMENTS,
                   payload = VmRequirementPayload
                     \<lparr>vm_req = vm_req p, buffer_time = ?B - ?d * int j\<rparr>\<rparr>)
           [1..<Suc k]"
    unfolding s'_def emitted_def by simp
  have f: "failed_requirements s' = failed_requirements s + 1"
    unfolding s'_def by simp
  have l: "latency_due_to_resource (total_latency s')
         = latency_due_to_resource (total_latency s) + ?d * ?c"
    unfolding s'_def c by simp
  from ceil_bounds [OF assms(1), of ?B] ceil_dvd [OF assms(1), of ?B] r e f l
  show ?thesis
    unfolding k_def [symmetric] by blast
qed

theorem postpone_chain_terminates_witness:
  "0 < delay_duration example_config
   \<and> payload (requirement_event 0 (new_vm 2 150 10 4) 7)
       = VmRequirementPayload \<lparr>vm_req = new_vm 2 150 10 4, buffer_time = 7\<rparr>
   \<and> valid_pm_list (machines (init_engine example_config)) (new_vm 2 150 10 4) = []
   \<and> (\<exists>s'. postpone_chain example_config (init_engine example_config)
               (requirement_event 0 (new_vm 2 150 10 4) 7) 0 = Some (2, s')
          \<and> emitted (init_engine example_config) s'
              = [requirement_event 5 (new_vm 2 150 10 4) 2,
                 requirement_event 10 (new_vm 2 150 10 4) (- 3)]
          \<and> failed_requirements s' = 1
          \<and> latency_due_to_resource (total_latency s') = 10)"
proof -
  have d: "0 < delay_duration example_config"
    by (simp add: example_config_def)
  have p: "payload (requirement_event 0 (new_vm 2 150 10 4) 7)
       = VmRequirementPayload \<lparr>vm_req = new_vm 2 150 10 4, buffer_time = 7\<rparr>"
    by (simp add: requirement_event_def)
  have b: "0 \<le> buffer_time \<lparr>vm_req = new_vm 2 150 10 4, buffer_time = 7\<rparr>"
    by simp
  have v: "valid_pm_list (machines (init_engine example_config))
             (vm_req \<lparr>vm_req = new_vm 2 150 10 4, buffer_time = 7\<rparr>) = []"
    by (simp add: example_defs valid_pm_list_def)
  have c: "\<lceil>(7::rat) / 5\<rceil> = 2"
    by (simp add: ceiling_eq_iff)
  from postpone_chain_terminates [OF d p b v]
  have "\<exists>s'. postpone_chain example_config (init_engine example_config)
               (requirement_event 0 (new_vm 2 150 10 4) 7) 0 = Some (2, s')
          \<and> emitted (init_engine example_config) s'
              = [requirement_event 5 (new_vm 2 150 10 4) 2,
                 requirement_event 10 (new_vm 2 150 10 4) (- 3)]
          \<and> failed_requirements s' = 1
          \<and> latency_due_to_resource (total_latency s') = 10"
    by (simp add: c eval_nat_numeral example_config_def requirement_event_def init_engine_def)
  with d p v show ?thesis by simp
qed

section \<open>Capacity\<close>

lemma on_vm_required_frame:
  "machines (state_after (map_sum id fst (on_vm_required cfg s e))) = machines s
   \<and> vms (state_after (map_sum id fst (on_vm_required cfg s e))) = vms s"
  by (simp add: on_vm_required_def state_after_def Let_def insert_event_def
        gen_cascade_event_def split: event_payload.splits)

lemma on_action_received_frame:
  "machines (state_after (on_action_received cfg gu s e)) = machines s
   \<and> (vms (state_after (on_action_received cfg gu s e)) = vms s
      \<or> (\<exists>a w. payload e = ActionPayload a
            \<and> vms (state_after (on_action_received cfg gu s e))
                = (vms s)(vm_id (action_vm_req a) \<mapsto>
                    (action_vm_req a)\<lparr>pm_id := action_pm_id a, start_tick := event_tick e,
                       end_tick := event_tick e + lifetime (action_vm_req a),
                       vm_util_cpu := w\<rparr>)))"
proof (cases "payload e")
  case (ActionPayload a)
  show ?thesis
    unfolding on_action_received_result [OF ActionPayload]
    using ActionPayload by (auto simp: state_after_def Let_def)
qed (simp_all add: on_action_received_def state_after_def)

lemma on_vm_finished_frame:
  "state_after (on_vm_finished s e) = s
   \<or> (\<exists>i v k pm. vms s i = Some v \<and> k < length (machines s)
         \<and> machines (state_after (on_vm_finished s e)) = (machines s)[k := pm]
         \<and> cap_cpu pm = cap_cpu (machines s ! k) \<and> cap_mem pm = cap_mem (machines s ! k)
         \<and> req_cpu pm = req_cpu (machines s ! k) - vm_req_cpu v
         \<and> req_mem pm = req_mem (machines s ! k) - vm_req_mem v
         \<and> (vms (state_after (on_vm_finished s e)) = vms s
            \<or> vms (state_after (on_vm_finished s e)) = (vms s)(i := None)))"
proof (cases "payload e")
  case (VmFinishedPayload i)
  show ?thesis
  proof (cases "vms s i")
    case None
    with VmFinishedPayload show ?thesis
      by (simp add: on_vm_finished_def state_after_def)
  next
    case (Some v)
    show ?thesis
    proof (cases "py_index (length (machines s)) (pm_id v)")
      case None
      with VmFinishedPayload Some show ?thesis
        by (simp add: on_vm_finished_def state_after_def)
    next
      case k: (Some k)
      have kl: "k < length (machines s)" by (rule py_index_less [OF k])
      show ?thesis
      proof (cases "cap_cpu (machines s ! k) = 0")
        case True
        have "machines (state_after (on_vm_finished s e))
                = (machines s)[k := (machines s ! k)
                    \<lparr>req_cpu := req_cpu (machines s ! k) - vm_req_cpu v,
                     req_mem := req_mem (machines s ! k) - vm_req_mem v\<rparr>]"
          and "vms (state_after (on_vm_finished s e)) = vms s"
          using VmFinishedPayload Some k True
          by (simp_all add: on_vm_finished_def state_after_def Let_def)
        with Some kl show ?thesis
          by (intro disjI2 exI [of _ i] exI [of _ v] exI [of _ k]
                exI [of _ "(machines s ! k)
                    \<lparr>req_cpu := req_cpu (machines s ! k) - vm_req_cpu v,
                     req_mem := req_mem (machines s ! k) - vm_req_mem v\<rparr>"]) simp
      next
        case False
        have "machines (state_after (on_vm_finished s e))
                = (machines s)[k := (machines s ! k)
                    \<lparr>req_cpu := req_cpu (machines s ! k) - vm_req_cpu v,
                     req_mem := req_mem (machines s ! k) - vm_req_mem v,
                     util_cpu := (of_int (cap_cpu (machines s ! k)) * util_cpu (machines s ! k)
                                    - of_int (vm_req_cpu v) * vm_util_cpu v)
                                 / of_int (cap_cpu (machines s ! k)),
                     vm_set := vm_set (machines s ! k) - {i}\<rparr>]"
          and "vms (state_after (on_vm_finished s e)) = (vms s)(i := None)"
          using VmFinishedPayload Some k False
          by (simp_all add: on_vm_finished_def state_after_def Let_def remove_vm_def)
        with Some kl show ?thesis
          by (intro disjI2 exI [of _ i] exI [of _ v] exI [of _ k]
                exI [of _ "(machines s ! k)
                    \<lparr>req_cpu := req_cpu (machines s ! k) - vm_req_cpu v,
                     req_mem := req_mem (machines s ! k) - vm_req_mem v,
                     util_cpu := (of_int (cap_cpu (machines s ! k)) * util_cpu (machines s ! k)
                                    - of_int (vm_req_cpu v) * vm_util_cpu v)
                                 / of_int (cap_cpu (machines s ! k)),
                     vm_set := vm_set (machines s ! k) - {i}\<rparr>"]) simp
      qed
    qed
  qed
qed (simp_all add: on_vm_finished_def state_after_def)

lemma capacity_ok_update:
  assumes "capacity_ok s"
      and "machines s' = (machines s)[k := pm']"
      and "req_cpu pm' \<le> cap_cpu pm'" and "req_mem pm' \<le> cap_mem pm'"
  shows "capacity_ok s'"
proof -
  have "set (machines s') \<subseteq> insert pm' (set (machines s))"
    unfolding assms(2) by (rule set_update_subset_insert)
  with assms(1,3,4) show ?thesis
    unfolding capacity_ok_def list_all_iff by blast
qed

lemma capacity_ok_nth:
  assumes "capacity_ok s" and "k < length (machines s)"
  shows "req_cpu (machines s ! k) \<le> cap_cpu (machines s ! k)
         \<and> req_mem (machines s ! k) \<le> cap_mem (machines s ! k)"
  using assms unfolding capacity_ok_def list_all_length by blast

lemma capacity_step:
  assumes c: "capacity_ok s" and l: "live_requests_nonneg s"
      and n: "nonneg_requests x"
  shows "capacity_ok (state_after (deliver cfg gu s x))
         \<and> live_requests_nonneg (state_after (deliver cfg gu s x))"
proof (cases x)
  case (ToVmRequired e)
  with on_vm_required_frame [of cfg s e] c l show ?thesis
    by (simp add: deliver_def capacity_ok_def live_requests_nonneg_def)
next
  case (ToVmFinished e)
  let ?t = "state_after (on_vm_finished s e)"
  from on_vm_finished_frame [of s e] show ?thesis
  proof
    assume "?t = s"
    with c l ToVmFinished show ?thesis by (simp add: deliver_def)
  next
    assume "\<exists>i v k pm. vms s i = Some v \<and> k < length (machines s)
         \<and> machines ?t = (machines s)[k := pm]
         \<and> cap_cpu pm = cap_cpu (machines s ! k) \<and> cap_mem pm = cap_mem (machines s ! k)
         \<and> req_cpu pm = req_cpu (machines s ! k) - vm_req_cpu v
         \<and> req_mem pm = req_mem (machines s ! k) - vm_req_mem v
         \<and> (vms ?t = vms s \<or> vms ?t = (vms s)(i := None))"
    then obtain i v k pm where v: "vms s i = Some v" and kl: "k < length (machines s)"
      and m: "machines ?t = (machines s)[k := pm]"
      and pm: "cap_cpu pm = cap_cpu (machines s ! k)" "cap_mem pm = cap_mem (machines s ! k)"
        "req_cpu pm = req_cpu (machines s ! k) - vm_req_cpu v"
        "req_mem pm = req_mem (machines s ! k) - vm_req_mem v"
      and t: "vms ?t = vms s \<or> vms ?t = (vms s)(i := None)"
      by blast
    from l v have nn: "0 \<le> vm_req_cpu v" "0 \<le> vm_req_mem v"
      unfolding live_requests_nonneg_def by blast+
    from capacity_ok_nth [OF c kl] nn pm
    have "capacity_ok ?t"
      by (intro capacity_ok_update [OF c m]) simp_all
    moreover have "live_requests_nonneg ?t"
      using l t unfolding live_requests_nonneg_def by (auto split: if_splits)
    ultimately show ?thesis
      using ToVmFinished by (simp add: deliver_def)
  qed
next
  case (ToActionReceived e)
  let ?t = "state_after (on_action_received cfg gu s e)"
  from on_action_received_frame [of cfg gu s e]
  have m: "machines ?t = machines s"
    and t: "vms ?t = vms s
      \<or> (\<exists>a w. payload e = ActionPayload a
            \<and> vms ?t = (vms s)(vm_id (action_vm_req a) \<mapsto>
                    (action_vm_req a)\<lparr>pm_id := action_pm_id a, start_tick := event_tick e,
                       end_tick := event_tick e + lifetime (action_vm_req a),
                       vm_util_cpu := w\<rparr>))"
    by blast+
  have "capacity_ok ?t"
    using c m by (simp add: capacity_ok_def)
  moreover have "live_requests_nonneg ?t"
    using t
  proof
    assume "vms ?t = vms s"
    with l show ?thesis by (simp add: live_requests_nonneg_def)
  next
    assume "\<exists>a w. payload e = ActionPayload a
            \<and> vms ?t = (vms s)(vm_id (action_vm_req a) \<mapsto>
                    (action_vm_req a)\<lparr>pm_id := action_pm_id a, start_tick := event_tick e,
                       end_tick := event_tick e + lifetime (action_vm_req a),
                       vm_util_cpu := w\<rparr>)"
    then obtain a w where a: "payload e = ActionPayload a"
      and u: "vms ?t = (vms s)(vm_id (action_vm_req a) \<mapsto>
                    (action_vm_req a)\<lparr>pm_id := action_pm_id a, start_tick := event_tick e,
                       end_tick := event_tick e + lifetime (action_vm_req a),
                       vm_util_cpu := w\<rparr>)"
      by blast
    from n ToActionReceived a
    have "0 \<le> vm_req_cpu (action_vm_req a)" "0 \<le> vm_req_mem (action_vm_req a)"
      by (simp_all add: nonneg_requests_def)
    with l show ?thesis
      unfolding live_requests_nonneg_def u by (auto split: if_splits)
  qed
  ultimately show ?thesis
    using ToActionReceived by (simp add: deliver_def)
qed

lemma capacity_run:
  assumes "capacity_ok s" and "live_requests_nonneg s"
      and "list_all nonneg_requests xs"
  shows "capacity_ok (run cfg gu s xs)"
  using assms
proof (induction xs arbitrary: s)
  case Nil
  then show ?case by simp
next
  case (Cons x xs)
  from Cons.prems(3) have x: "nonneg_requests x" and xs: "list_all nonneg_requests xs"
    by simp_all
  from capacity_step [OF Cons.prems(1,2) x, of cfg gu] Cons.IH [OF _ _ xs]
  show ?case by simp
qed

lemma capacity_init:
  assumes "0 \<le> pm_cap_cpu cfg" and "0 \<le> pm_cap_mem cfg"
  shows "capacity_ok (init_engine cfg) \<and> live_requests_nonneg (init_engine cfg)"
  using assms
  by (simp add: capacity_ok_def live_requests_nonneg_def init_engine_def init_machines_def
        PhysicalMachine_def list_all_iff)

text \<open>
  Claim C6. With capacities and requests that are not negative, every machine has
  \<open>req_cpu \<le> cap_cpu\<close> and \<open>req_mem \<le> cap_mem\<close> at every state that deliveries
  to the three handlers lead to from the initial engine, the states that a raising handler
  leaves included. In this engine an assign raises before the statements that reserve, so
  reservations never grow; the finish handler only subtracts.
\<close>

theorem capacity_invariant:
  assumes "0 \<le> pm_cap_cpu cfg" and "0 \<le> pm_cap_mem cfg"
      and "list_all nonneg_requests xs"
  shows "\<forall>pm \<in> set (machines (run cfg gu (init_engine cfg) xs)).
            req_cpu pm \<le> cap_cpu pm \<and> req_mem pm \<le> cap_mem pm"
proof -
  from capacity_init [OF assms(1,2)] capacity_run [OF _ _ assms(3)]
  have "capacity_ok (run cfg gu (init_engine cfg) xs)" by blast
  then show ?thesis
    unfolding capacity_ok_def list_all_iff .
qed

theorem capacity_invariant_witness:
  "0 \<le> pm_cap_cpu example_config \<and> 0 \<le> pm_cap_mem example_config
   \<and> list_all nonneg_requests
       [ToVmRequired (requirement_event 0 (new_vm 3 10 200 4) 5),
        ToActionReceived (assign_event 0 (new_vm 3 10 200 4) 0),
        ToVmFinished (finished_event 4 3)]
   \<and> capacity_ok
       (run example_config example_get_util (init_engine example_config)
          [ToVmRequired (requirement_event 0 (new_vm 3 10 200 4) 5),
           ToActionReceived (assign_event 0 (new_vm 3 10 200 4) 0),
           ToVmFinished (finished_event 4 3)])
   \<and> map req_mem
       (machines (run example_config example_get_util (init_engine example_config)
          [ToVmRequired (requirement_event 0 (new_vm 3 10 200 4) 5),
           ToActionReceived (assign_event 0 (new_vm 3 10 200 4) 0)])) = [0, 0]"
proof -
  have c: "0 \<le> pm_cap_cpu example_config" and m: "0 \<le> pm_cap_mem example_config"
    by (simp_all add: example_config_def)
  have n: "list_all nonneg_requests
       [ToVmRequired (requirement_event 0 (new_vm 3 10 200 4) 5),
        ToActionReceived (assign_event 0 (new_vm 3 10 200 4) 0),
        ToVmFinished (finished_event 4 3)]"
    by (simp add: nonneg_requests_def example_defs)
  from capacity_invariant [OF c m n, of example_get_util]
  have "capacity_ok
       (run example_config example_get_util (init_engine example_config)
          [ToVmRequired (requirement_event 0 (new_vm 3 10 200 4) 5),
           ToActionReceived (assign_event 0 (new_vm 3 10 200 4) 0),
           ToVmFinished (finished_event 4 3)])"
    unfolding capacity_ok_def list_all_iff .
  moreover have "map req_mem
       (machines (run example_config example_get_util (init_engine example_config)
          [ToVmRequired (requirement_event 0 (new_vm 3 10 200 4) 5),
           ToActionReceived (assign_event 0 (new_vm 3 10 200 4) 0)])) = [0, 0]"
    by (simp add: example_defs handler_defs)
  ultimately show ?thesis
    using c m n by blast
qed

section \<open>Conservation\<close>

text \<open>
  Claim C7. Every live virtual machine is counted in the reserved totals of exactly one
  machine, and the reserved CPU of all machines is the requested CPU of all live virtual
  machines. With the decision for the virtual machine 1 (50 CPU) pending, the assign
  action for candidate 0 raises at the generator call, between the statement that puts the
  virtual machine in the live table and the statements that reserve: the engine it leaves
  has the virtual machine 1 live, in the \<open>vm_set\<close> of no machine, with 0 CPU reserved
  on all machines against 50 CPU requested.
\<close>

theorem assign_leaves_vm_unreserved:
  "run example_config example_get_util (init_engine example_config)
     [ToVmRequired (requirement_event 0 (new_vm 1 50 30 10) 5),
      ToActionReceived (assign_event 0 (new_vm 1 50 30 10) 0)]
     = pending_engine\<lparr>vms := [1 \<mapsto> \<lparr>vm_id = 1, vm_req_cpu = 50, vm_req_mem = 30,
                                     lifetime = 10, pm_id = 0, start_tick = 0, end_tick = 10,
                                     vm_util_cpu = 20\<rparr>]\<rparr>
   \<and> map entry_id (valid_pm_list (machines (init_engine example_config)) (new_vm 1 50 30 10))
       = [0, 1]
   \<and> map vm_set (machines pending_engine) = [{}, {}]
   \<and> map req_cpu (machines pending_engine) = [0, 0]
   \<and> map req_mem (machines pending_engine) = [0, 0]
   \<and> cpu_conserved
        (run example_config example_get_util (init_engine example_config)
           [ToVmRequired (requirement_event 0 (new_vm 1 50 30 10) 5),
            ToActionReceived (assign_event 0 (new_vm 1 50 30 10) 0)]) = False"
  by (simp add: pending_engine_eq example_defs handler_defs cpu_conserved_def)

end
